theory Spec2Isabelle
  imports Complex_Main
begin

section \<open>Document store (frontend, Zustand store)\<close>

text \<open>
  The store of \<^verbatim>\<open>store.ts\<close> keeps the list of documents and the currently selected
  document. A \<^verbatim>\<open>Document\<close> is an interface with an \<^verbatim>\<open>id: number\<close> and further
  fields that \<^verbatim>\<open>deleteDocument\<close> never reads; optional fields are options.
  The types of the nested \<^verbatim>\<open>summary\<close> and \<^verbatim>\<open>mindmap\<close> objects, which the store
  never looks into, are parameters.
\<close>

datatype UploadStatus = uploading | parsing | ready | failed

record PDFMetadata =
  author :: "string option"
  creation_date :: "string option"
  pdf_title :: "string option"
  subject :: "string option"

record ('s, 'm) Document =
  doc_id :: int
  user_id :: int
  filename :: string
  file_path :: string
  file_size_bytes :: int
  file_hash :: string
  page_count :: "int option"
  extracted_text :: "string option"
  pdf_metadata :: "PDFMetadata option"
  upload_status :: UploadStatus
  error_message :: "string option"
  created_at :: string
  updated_at :: string
  expires_at :: string
  summary :: "'s option"
  mindmap :: "'m option"

record LoadingStates =
  loading_documents :: bool
  loading_upload :: bool
  loading_summary :: bool
  loading_mindmap :: bool

record ErrorStates =
  error_documents :: "string option"
  error_upload :: "string option"
  error_summary :: "string option"
  error_mindmap :: "string option"

record ('s, 'm) DocumentState =
  documents :: "('s, 'm) Document list"
  currentDocument :: "('s, 'm) Document option"
  loading :: LoadingStates
  errors :: ErrorStates

text \<open>
  \<^verbatim>\<open>state.currentDocument?.id === id\<close>: the optional chain gives \<^verbatim>\<open>undefined\<close> on
  \<^verbatim>\<open>null\<close>, which is never strictly equal to a number.
\<close>

definition current_has_id :: "('s, 'm) Document option \<Rightarrow> int \<Rightarrow> bool" where
  "current_has_id cur i = (case cur of None \<Rightarrow> False | Some d \<Rightarrow> doc_id d = i)"

definition deleteDocument :: "int \<Rightarrow> ('s, 'm) DocumentState \<Rightarrow> ('s, 'm) DocumentState" where
  "deleteDocument i state =
     state\<lparr>documents := filter (\<lambda>doc. doc_id doc \<noteq> i) (documents state),
           currentDocument := (if current_has_id (currentDocument state) i then None
                               else currentDocument state)\<rparr>"

definition addDocument ::
  "('s, 'm) Document \<Rightarrow> ('s, 'm) DocumentState \<Rightarrow> ('s, 'm) DocumentState" where
  "addDocument document state = state\<lparr>documents := documents state @ [document]\<rparr>"

definition setCurrentDocument ::
  "('s, 'm) Document option \<Rightarrow> ('s, 'm) DocumentState \<Rightarrow> ('s, 'm) DocumentState" where
  "setCurrentDocument document state = state\<lparr>currentDocument := document\<rparr>"

definition initialState :: "('s, 'm) DocumentState" where
  "initialState =
     \<lparr>documents = [], currentDocument = None,
      loading = \<lparr>loading_documents = False, loading_upload = False,
                 loading_summary = False, loading_mindmap = False\<rparr>,
      errors = \<lparr>error_documents = None, error_upload = None,
                error_summary = None, error_mindmap = None\<rparr>\<rparr>"

definition sample_doc :: "int \<Rightarrow> (unit, unit) Document" where
  "sample_doc i =
     \<lparr>doc_id = i, user_id = 1, filename = ''a.pdf'', file_path = ''/tmp/a.pdf'',
      file_size_bytes = 10, file_hash = ''h'', page_count = None, extracted_text = None,
      pdf_metadata = None, upload_status = ready, error_message = None,
      created_at = ''2025-11-10'', updated_at = ''2025-11-10'', expires_at = ''2025-12-10'',
      summary = None, mindmap = None\<rparr>"

definition sample_state :: "(unit, unit) DocumentState" where
  "sample_state =
     setCurrentDocument (Some (sample_doc 2))
       (addDocument (sample_doc 3) (addDocument (sample_doc 2)
          (addDocument (sample_doc 1) initialState)))"

section \<open>Frontend error classification (errorTransform.ts, errorFormatter.ts)\<close>

text \<open>
  The string enum \<^verbatim>\<open>ErrorCode\<close> of \<^verbatim>\<open>lib/types/api.ts\<close>; \<open>code_name\<close> gives the string
  value of each member, which is what the backend sends and what the table of
  \<^verbatim>\<open>errorFormatter.ts\<close> is keyed by.
\<close>

datatype ErrorCode =
    INVALID_PDF
  | FILE_TOO_LARGE
  | UNSUPPORTED_FILE_TYPE
  | FILE_CORRUPTED
  | FILE_NOT_FOUND
  | DUPLICATE_FILE
  | RATE_LIMITED
  | TIMEOUT
  | API_ERROR
  | AUTH_ERROR
  | QUOTA_EXCEEDED
  | DB_ERROR
  | DB_CONNECTION_ERROR
  | DB_TRANSACTION_ERROR
  | RECORD_NOT_FOUND
  | DUPLICATE_RECORD
  | PARSING_ERROR
  | GENERATION_ERROR
  | VALIDATION_ERROR
  | PROCESSING_TIMEOUT
  | DOCUMENT_NOT_READY
  | INVALID_STATE
  | OPERATION_NOT_ALLOWED
  | INTERNAL_ERROR
  | UNKNOWN_ERROR
  | CONFIGURATION_ERROR
  | NETWORK_ERROR


text \<open>The table \<^verbatim>\<open>ERROR_MESSAGES\<close> of \<^verbatim>\<open>errorTransform.ts\<close>.\<close>

fun ERROR_MESSAGES :: "ErrorCode \<Rightarrow> string" where
  "ERROR_MESSAGES INVALID_PDF =
     ''The file you uploaded is not a valid PDF document. Please check the file and try again.''"
| "ERROR_MESSAGES FILE_TOO_LARGE =
     ''The file is too large. Maximum file size is 100MB.''"
| "ERROR_MESSAGES UNSUPPORTED_FILE_TYPE =
     ''This file type is not supported. Please upload a PDF document.''"
| "ERROR_MESSAGES FILE_CORRUPTED =
     ''The PDF file appears to be corrupted. Please try uploading a different file.''"
| "ERROR_MESSAGES FILE_NOT_FOUND =
     ''The requested document could not be found. It may have been deleted.''"
| "ERROR_MESSAGES DUPLICATE_FILE =
     ''This file has already been uploaded.''"
| "ERROR_MESSAGES RATE_LIMITED =
     ''Too many requests. Please wait a moment and try again.''"
| "ERROR_MESSAGES TIMEOUT =
     ''The request took too long to complete. Please try again.''"
| "ERROR_MESSAGES API_ERROR =
     ''An error occurred while communicating with the server. Please try again.''"
| "ERROR_MESSAGES AUTH_ERROR =
     ''Authentication failed. Please check your credentials.''"
| "ERROR_MESSAGES QUOTA_EXCEEDED =
     ''API quota exceeded. Please try again later.''"
| "ERROR_MESSAGES DB_ERROR =
     ''A database error occurred. Please try again later.''"
| "ERROR_MESSAGES DB_CONNECTION_ERROR =
     ''Unable to connect to the database. Please try again later.''"
| "ERROR_MESSAGES DB_TRANSACTION_ERROR =
     ''A database transaction error occurred. Please try again.''"
| "ERROR_MESSAGES RECORD_NOT_FOUND =
     ''The requested record was not found.''"
| "ERROR_MESSAGES DUPLICATE_RECORD =
     ''This record already exists.''"
| "ERROR_MESSAGES PARSING_ERROR =
     ''Unable to parse the document. The PDF may be corrupted or use unsupported features.''"
| "ERROR_MESSAGES GENERATION_ERROR =
     ''Failed to generate the requested content. Please try again.''"
| "ERROR_MESSAGES VALIDATION_ERROR =
     ''The request contains invalid data. Please check your input.''"
| "ERROR_MESSAGES PROCESSING_TIMEOUT =
     ''Processing took too long and was cancelled. Please try again.''"
| "ERROR_MESSAGES DOCUMENT_NOT_READY =
     ''The document is still being processed. Please wait and try again.''"
| "ERROR_MESSAGES INVALID_STATE =
     ''The document is not in a valid state for this operation.''"
| "ERROR_MESSAGES OPERATION_NOT_ALLOWED =
     ''This operation is not allowed for this document.''"
| "ERROR_MESSAGES INTERNAL_ERROR =
     ''An internal server error occurred. Please try again later.''"
| "ERROR_MESSAGES UNKNOWN_ERROR =
     ''An unexpected error occurred. Please try again.''"
| "ERROR_MESSAGES CONFIGURATION_ERROR =
     ''A configuration error occurred. Please contact support.''"
| "ERROR_MESSAGES NETWORK_ERROR =
     ''Unable to connect to the server. Please check your internet connection.''"

definition retryableErrors :: "ErrorCode list" where
  "retryableErrors = [NETWORK_ERROR, TIMEOUT, RATE_LIMITED, DB_CONNECTION_ERROR, API_ERROR]"

definition isRetryableError :: "ErrorCode \<Rightarrow> bool" where
  "isRetryableError ec = (ec \<in> set retryableErrors)"

definition mapStatusCodeToErrorCode :: "int \<Rightarrow> ErrorCode" where
  "mapStatusCodeToErrorCode statusCode =
     (if statusCode = 401 \<or> statusCode = 403 then AUTH_ERROR
      else if statusCode = 404 then FILE_NOT_FOUND
      else if statusCode = 408 then TIMEOUT
      else if statusCode = 413 then FILE_TOO_LARGE
      else if statusCode = 429 then RATE_LIMITED
      else if statusCode = 500 \<or> statusCode = 502 \<or> statusCode = 503 \<or> statusCode = 504
        then INTERNAL_ERROR
      else UNKNOWN_ERROR)"

text \<open>
  The class \<^verbatim>\<open>ApiError\<close> and the backend's error body \<^verbatim>\<open>ApiErrorResponse\<close>. The body's
  \<^verbatim>\<open>error_code\<close> is cast to \<^verbatim>\<open>ErrorCode\<close> by the source; an absent or empty code is
  \<open>None\<close>.
\<close>

record ApiError =
  errorCode :: ErrorCode
  message :: string
  statusCode :: int
  timestamp :: "string option"
  requestId :: "string option"
  isRetryable :: bool

record ApiErrorResponse =
  error_code :: "ErrorCode option"
  detail :: string
  resp_timestamp :: "string option"
  request_id :: "string option"

text \<open>JavaScript's \<^verbatim>\<open>a || b\<close> on strings: the empty string is falsy.\<close>

definition js_or :: "string \<Rightarrow> string \<Rightarrow> string" where
  "js_or a b = (if a = [] then b else a)"

definition status_fallback :: "int \<Rightarrow> ApiError" where
  "status_fallback status =
     (let ec = mapStatusCodeToErrorCode status in
      \<lparr>errorCode = ec, message = ERROR_MESSAGES ec, statusCode = status,
       timestamp = None, requestId = None, isRetryable = isRetryableError ec\<rparr>)"

definition transformErrorResponse :: "ApiErrorResponse option \<Rightarrow> int \<Rightarrow> ApiError" where
  "transformErrorResponse response status =
     (case response of
        None \<Rightarrow> status_fallback status
      | Some r \<Rightarrow>
          (case error_code r of
             None \<Rightarrow> status_fallback status
           | Some ec \<Rightarrow>
               \<lparr>errorCode = ec,
                message = js_or (ERROR_MESSAGES ec) (js_or (detail r) ''An error occurred''),
                statusCode = status, timestamp = resp_timestamp r, requestId = request_id r,
                isRetryable = isRetryableError ec\<rparr>))"

definition transformNetworkError :: ApiError where
  "transformNetworkError =
     \<lparr>errorCode = NETWORK_ERROR, message = ERROR_MESSAGES NETWORK_ERROR, statusCode = 0,
      timestamp = None, requestId = None, isRetryable = True\<rparr>"




section \<open>Frontend retry loop (api.ts)\<close>

definition config_maxRetries :: nat where
  "config_maxRetries = 3"

definition config_retryDelay :: nat where
  "config_retryDelay = 1000"

record RetryConfig =
  retries :: nat
  retryDelay :: nat

text \<open>
  What one attempt of the HTTP request meets: a response, no response at all (a network
  error), or an error status with an optional error body.
\<close>

datatype 'r attempt_outcome =
    Response 'r
  | NoResponse
  | ErrorStatus int "ApiErrorResponse option"

definition shouldRetry :: "RetryConfig option \<Rightarrow> ApiError \<Rightarrow> bool" where
  "shouldRetry requestRetry err =
     (case requestRetry of
        None \<Rightarrow> False
      | Some r \<Rightarrow> if retries r \<ge> config_maxRetries then False else isRetryable err)"

definition init_retry :: "RetryConfig option \<Rightarrow> RetryConfig" where
  "init_retry requestRetry =
     (case requestRetry of
        None \<Rightarrow> \<lparr>retries = 0, retryDelay = config_retryDelay\<rparr>
      | Some r \<Rightarrow> r)"

definition retry_delay :: "RetryConfig \<Rightarrow> nat" where
  "retry_delay r = retryDelay r * 2 ^ (retries r - 1)"

text \<open>
  The error that the response interceptor builds for a failed attempt. The interceptor is
  not run for a response, and the value given for one is never used.
\<close>

definition to_ApiError :: "'r attempt_outcome \<Rightarrow> ApiError" where
  "to_ApiError outcome =
     (case outcome of
        NoResponse \<Rightarrow> transformNetworkError
      | ErrorStatus status body \<Rightarrow> transformErrorResponse body status
      | Response r \<Rightarrow> transformNetworkError)"

record 'r request_result =
  outcome :: "ApiError + 'r"
  delays :: "nat list"
  attempts :: nat

text \<open>
  \<^verbatim>\<open>apiClient.request\<close> with its two interceptors. \<open>server k\<close> is what the \<open>k\<close>-th
  attempt meets. The request interceptor initialises \<^verbatim>\<open>_retry\<close> when it is absent; the
  response interceptor turns a failure into an \<^verbatim>\<open>ApiError\<close> and either rejects with
  it or, through \<^verbatim>\<open>retryRequest\<close>, increments \<^verbatim>\<open>retries\<close>, waits \<open>retry_delay\<close>
  milliseconds and requests again. The waits are recorded in \<open>delays\<close>.
\<close>

function apiClient_request ::
  "(nat \<Rightarrow> 'r attempt_outcome) \<Rightarrow> nat \<Rightarrow> RetryConfig option \<Rightarrow> nat list \<Rightarrow> 'r request_result"
where
  "apiClient_request server k requestRetry waited =
     (case server k of
        Response r \<Rightarrow> \<lparr>outcome = Inr r, delays = waited, attempts = Suc k\<rparr>
      | _ \<Rightarrow>
          (if shouldRetry (Some (init_retry requestRetry)) (to_ApiError (server k)) then
             apiClient_request server (Suc k)
               (Some ((init_retry requestRetry)\<lparr>retries := retries (init_retry requestRetry) + 1\<rparr>))
               (waited @ [retry_delay ((init_retry requestRetry)
                            \<lparr>retries := retries (init_retry requestRetry) + 1\<rparr>)])
           else \<lparr>outcome = Inl (to_ApiError (server k)), delays = waited, attempts = Suc k\<rparr>))"
  by pat_completeness auto
termination
  by (relation "measure (\<lambda>(server, k, rr, waited). config_maxRetries - retries (init_retry rr))")
     (auto simp: shouldRetry_def init_retry_def split: option.splits if_splits)

declare apiClient_request.simps [simp del]



definition request :: "(nat \<Rightarrow> 'r attempt_outcome) \<Rightarrow> 'r request_result" where
  "request server = apiClient_request server 0 None []"



section \<open>Gemini service contract (Python)\<close>

subsection \<open>Exceptions and JSON values\<close>

text \<open>
  The exception classes the contract raises or catches, with their arguments, and the
  built-in ones that the validator can run into. \<open>OtherError\<close> stands for any other
  exception of the remote client.
\<close>

datatype exn =
    ValidationError string string
  | GeminiAPIError string
  | TimeoutError string
  | RateLimitError string
  | NonRetryableError string
  | TypeError
  | KeyError
  | IndexError
  | OtherError string

text \<open>
  What \<^verbatim>\<open>json.loads\<close> returns. A dict is the list of its entries, one for each key,
  looked up by key.
\<close>

datatype json =
    JNull
  | JBool bool
  | JNumber rat
  | JString string
  | JArray "json list"
  | JObject "(string \<times> json) list"

fun is_substring :: "string \<Rightarrow> string \<Rightarrow> bool" where
  "is_substring p [] = (p = [])"
| "is_substring p (c # cs) = (take (length p) (c # cs) = p \<or> is_substring p cs)"

text \<open>
  \<^verbatim>\<open>key in obj\<close>: a key of a dict, an element of a list, a substring of a string;
  a \<^verbatim>\<open>TypeError\<close> on \<^verbatim>\<open>None\<close>, booleans and numbers.
\<close>

fun py_in :: "string \<Rightarrow> json \<Rightarrow> exn + bool" where
  "py_in k (JObject kvs) = Inr (k \<in> set (map fst kvs))"
| "py_in k (JArray xs) = Inr (JString k \<in> set xs)"
| "py_in k (JString s) = Inr (is_substring k s)"
| "py_in k JNull = Inl TypeError"
| "py_in k (JBool b) = Inl TypeError"
| "py_in k (JNumber n) = Inl TypeError"

text \<open>\<^verbatim>\<open>obj[key]\<close> with a string key: defined on a dict only.\<close>

fun py_getitem :: "json \<Rightarrow> string \<Rightarrow> exn + json" where
  "py_getitem (JObject kvs) k = (case map_of kvs k of None \<Rightarrow> Inl KeyError | Some v \<Rightarrow> Inr v)"
| "py_getitem obj k = Inl TypeError"

fun is_str :: "json \<Rightarrow> bool" where
  "is_str (JString s) = True"
| "is_str v = False"

fun as_list :: "json \<Rightarrow> json list option" where
  "as_list (JArray xs) = Some xs"
| "as_list v = None"

definition is_list :: "json \<Rightarrow> bool" where
  "is_list v = (as_list v \<noteq> None)"

text \<open>
  The condition \<^verbatim>\<open>key not in obj or not isinstance(obj[key], T)\<close>, evaluated left to
  right with the short circuit of \<^verbatim>\<open>or\<close>.
\<close>

definition missing_or_not :: "string \<Rightarrow> (json \<Rightarrow> bool) \<Rightarrow> json \<Rightarrow> exn + bool" where
  "missing_or_not k isinstance obj =
     (case py_in k obj of
        Inl e \<Rightarrow> Inl e
      | Inr present \<Rightarrow>
          if \<not> present then Inr True
          else (case py_getitem obj k of
                  Inl e \<Rightarrow> Inl e
                | Inr v \<Rightarrow> Inr (\<not> isinstance v)))"

subsection \<open>The mindmap structure validator\<close>

definition MINDMAP_TOO_DEEP :: exn where
  "MINDMAP_TOO_DEEP = ValidationError ''MINDMAP_TOO_DEEP'' ''Max 10 hierarchy levels''"

definition INVALID_title :: exn where
  "INVALID_title = ValidationError ''INVALID_NODE'' (''Missing or invalid 'title'' @ [CHR 0x27])"

definition INVALID_children :: exn where
  "INVALID_children =
     ValidationError ''INVALID_NODE'' (''Missing or invalid 'children'' @ [CHR 0x27])"

definition TOO_MANY_CHILDREN :: exn where
  "TOO_MANY_CHILDREN = ValidationError ''TOO_MANY_CHILDREN'' ''Max 100 children per node''"

text \<open>
  \<^verbatim>\<open>_validate_mindmap_structure(obj, depth)\<close>; \<open>validate_children\<close> is its
  \<^verbatim>\<open>for child in obj["children"]\<close> loop, which stops at the first exception. The
  recursion ends because \<open>depth\<close> grows and the function raises beyond 10.
\<close>

function validate_mindmap_structure :: "json \<Rightarrow> nat \<Rightarrow> exn + unit"
  and validate_children :: "json list \<Rightarrow> nat \<Rightarrow> exn + unit"
where
  "validate_mindmap_structure obj depth =
     (if depth > 10 then Inl MINDMAP_TOO_DEEP
      else case missing_or_not ''title'' is_str obj of
        Inl e \<Rightarrow> Inl e
      | Inr True \<Rightarrow> Inl INVALID_title
      | Inr False \<Rightarrow>
         (case missing_or_not ''children'' is_list obj of
            Inl e \<Rightarrow> Inl e
          | Inr True \<Rightarrow> Inl INVALID_children
          | Inr False \<Rightarrow>
             (case py_getitem obj ''children'' of
                Inl e \<Rightarrow> Inl e
              | Inr v \<Rightarrow>
                 (case as_list v of
                    None \<Rightarrow> Inl TypeError
                  | Some children \<Rightarrow>
                      if length children > 100 then Inl TOO_MANY_CHILDREN
                      else validate_children children (depth + 1)))))"
| "validate_children [] depth = Inr ()"
| "validate_children (child # rest) depth =
     (case validate_mindmap_structure child depth of
        Inl e \<Rightarrow> Inl e
      | Inr u \<Rightarrow> validate_children rest depth)"
  by pat_completeness auto
termination
  by (relation "measures [\<lambda>x. case x of Inl (obj, d) \<Rightarrow> 12 - d | Inr (cs, d) \<Rightarrow> 12 - d,
                          \<lambda>x. case x of Inl (obj, d) \<Rightarrow> 0 | Inr (cs, d) \<Rightarrow> Suc (length cs)]")
     auto

declare validate_mindmap_structure.simps [simp del]

subsection \<open>Mindmap trees\<close>

text \<open>
  A tree-shaped reply: every node is a dict with a \<^verbatim>\<open>children\<close> list of nodes and a
  \<^verbatim>\<open>title\<close> entry that may be missing or hold any JSON value. \<open>to_json\<close> is the value
  the validator receives for it; other keys, which the validator never reads, are left
  out.
\<close>

datatype mindmap = Node "json option" "mindmap list"

fun to_json :: "mindmap \<Rightarrow> json" where
  "to_json (Node t cs) =
     JObject ((case t of None \<Rightarrow> [] | Some v \<Rightarrow> [(''title'', v)])
              @ [(''children'', JArray (map to_json cs))])"

definition max_list :: "nat list \<Rightarrow> nat" where
  "max_list xs = foldr max xs 0"

text \<open>The depth of a tree: the root is at depth 0, as in \<^verbatim>\<open>depth: int = 0\<close>.\<close>

fun tree_depth :: "mindmap \<Rightarrow> nat" where
  "tree_depth (Node t cs) = (if cs = [] then 0 else Suc (max_list (map tree_depth cs)))"

fun node_count :: "mindmap \<Rightarrow> nat" where
  "node_count (Node t cs) = Suc (sum_list (map node_count cs))"

definition title_is_str :: "json option \<Rightarrow> bool" where
  "title_is_str t = (case t of None \<Rightarrow> False | Some v \<Rightarrow> is_str v)"

fun titles_are_str :: "mindmap \<Rightarrow> bool" where
  "titles_are_str (Node t cs) = (title_is_str t \<and> list_all titles_are_str cs)"

fun has_bad_title :: "mindmap \<Rightarrow> bool" where
  "has_bad_title (Node t cs) = (\<not> title_is_str t \<or> list_ex has_bad_title cs)"

fun has_empty_title :: "mindmap \<Rightarrow> bool" where
  "has_empty_title (Node t cs) = (t = Some (JString []) \<or> list_ex has_empty_title cs)"

fun fanout_ok :: "mindmap \<Rightarrow> bool" where
  "fanout_ok (Node t cs) = (length cs \<le> 100 \<and> list_all fanout_ok cs)"

definition well_formed :: "mindmap \<Rightarrow> bool" where
  "well_formed t = (titles_are_str t \<and> fanout_ok t)"

definition leaf :: "string \<Rightarrow> mindmap" where
  "leaf s = Node (Some (JString s)) []"

fun chain :: "nat \<Rightarrow> mindmap" where
  "chain 0 = leaf ''n''"
| "chain (Suc k) = Node (Some (JString ''n'')) [chain k]"

definition tree_501 :: mindmap where
  "tree_501 = Node (Some (JString ''root''))
     (replicate 100 (Node (Some (JString ''topic'')) (replicate 4 (leaf ''item''))))"

definition wide_deep :: mindmap where
  "wide_deep = Node (Some (JString ''root'')) (replicate 100 (leaf ''x'') @ [chain 10])"

definition ten_nodes :: mindmap where
  "ten_nodes = Node (Some (JString ''root''))
     [Node (Some (JString ''a''))
        [Node (Some (JString ''b'')) [leaf ''c'', leaf ''d''], leaf ''e''],
      Node (Some (JString ''f'')) [leaf ''g'', leaf ''h''],
      leaf ''i'']"

definition bad_titles :: mindmap where
  "bad_titles = Node (Some (JString ''root'')) [Node None [], Node (Some (JNumber 3)) []]"

subsection \<open>Retry with exponential backoff\<close>












subsection \<open>Cost tracking and the generation calls\<close>

record APILog =
  operation :: string
  tokens_input :: int
  tokens_output :: int
  cost_usd :: rat
  latency_ms :: int
  status :: string
  document_id :: "int option"

text \<open>
  The state of the service that the claims are about: the rows of \<^verbatim>\<open>api_logs\<close>, the
  budget warnings that \<^verbatim>\<open>logger.warning\<close> has written (each with the daily cost it
  reports), and the number of calls the remote client has received.
\<close>

record service =
  api_logs :: "APILog list"
  budget_warnings :: "rat list"
  remote_calls :: nat

definition price_input :: rat where
  "price_input = 0.00075 / 1000"

definition price_output :: rat where
  "price_output = 0.003 / 1000"

text \<open>
  Modelled from the spec: \<^verbatim>\<open>_calculate_daily_cost\<close> is called by \<^verbatim>\<open>_log_api_call\<close> but
  defined nowhere in the sources. The specification's \<^verbatim>\<open>DailySpend()\<close> is the running
  total of the costs appended during the current day, and the data model gives it as
  \<^verbatim>\<open>SUM(cost_usd) WHERE created_at >= TODAY()\<close>; the rows of the state are those of
  the current day.
\<close>

definition calculate_daily_cost :: "service \<Rightarrow> rat" where
  "calculate_daily_cost s = sum_list (map cost_usd (api_logs s))"

text \<open>
  \<^verbatim>\<open>_log_api_call\<close>; the constant \<^verbatim>\<open>DAILY_BUDGET_LIMIT\<close>, which the sources do not define,
  is its first argument. Python's floats are taken as exact rationals.
\<close>

definition log_api_call ::
  "rat \<Rightarrow> string \<Rightarrow> int \<Rightarrow> int \<Rightarrow> int \<Rightarrow> string \<Rightarrow> int option \<Rightarrow> service \<Rightarrow> service" where
  "log_api_call DAILY_BUDGET_LIMIT op tokens_in tokens_out latency st doc s =
     (let cost = (of_int tokens_in * price_input) + (of_int tokens_out * price_output);
          log_entry = \<lparr>operation = op, tokens_input = tokens_in, tokens_output = tokens_out,
                       cost_usd = cost, latency_ms = latency, status = st, document_id = doc\<rparr>;
          s1 = s\<lparr>api_logs := api_logs s @ [log_entry]\<rparr>;
          daily_cost = calculate_daily_cost s1
      in if daily_cost > DAILY_BUDGET_LIMIT
         then s1\<lparr>budget_warnings := budget_warnings s1 @ [daily_cost]\<rparr>
         else s1)"

record generation_request =
  prompt :: string
  temperature :: rat
  max_output_tokens :: int
  candidate_count :: "nat option"
  timeout :: nat

text \<open>The remote client: \<^verbatim>\<open>generate_content\<close> returns the response text or raises.\<close>

type_synonym client = "generation_request \<Rightarrow> exn + string"

definition py_isspace :: "char \<Rightarrow> bool" where
  "py_isspace c = (c \<in> set [CHR 0x20, CHR 0x09, CHR 0x0A, CHR 0x0B, CHR 0x0C, CHR 0x0D,
                            CHR 0x1C, CHR 0x1D, CHR 0x1E, CHR 0x1F])"

definition strip :: "string \<Rightarrow> string" where
  "strip s = rev (dropWhile py_isspace (rev (dropWhile py_isspace s)))"

definition summary_prompt :: "string \<Rightarrow> string" where
  "summary_prompt document_text =
     ''Summarize the following document in clear, concise bullet points.'' @ [CHR 0x0A]
     @ ''Focus on key concepts, findings, and conclusions.'' @ [CHR 0x0A]
     @ ''Output 5-10 bullets, each 1-2 sentences.'' @ [CHR 0x0A, CHR 0x0A]
     @ ''Document:'' @ [CHR 0x0A] @ document_text @ [CHR 0x0A, CHR 0x0A] @ ''Summary:''"

text \<open>
  \<^verbatim>\<open>generate_summary\<close>: one call of the remote client, then the check for an empty
  response. Nothing in it reads the logged costs.
\<close>

definition generate_summary ::
  "client \<Rightarrow> string \<Rightarrow> int \<Rightarrow> service \<Rightarrow> (exn + string) \<times> service" where
  "generate_summary generate_content document_text max_tokens s =
     (let s1 = s\<lparr>remote_calls := remote_calls s + 1\<rparr> in
      case generate_content \<lparr>prompt = summary_prompt document_text, temperature = 0.3,
             max_output_tokens = max_tokens, candidate_count = Some 1, timeout = 30\<rparr> of
        Inl e \<Rightarrow> (Inl e, s1)
      | Inr text \<Rightarrow>
          if strip text = [] then (Inl (GeminiAPIError ''Empty response from Gemini API''), s1)
          else (Inr (strip text), s1))"

function py_replace :: "string \<Rightarrow> string \<Rightarrow> string \<Rightarrow> string" where
  "py_replace old new [] = (if old = [] then new else [])"
| "py_replace old new (c # cs) =
     (if old = [] then new @ c # py_replace old new cs
      else if take (length old) (c # cs) = old
        then new @ py_replace old new (drop (length old) (c # cs))
      else c # py_replace old new cs)"
  by pat_completeness auto
termination
  by (relation "measure (\<lambda>(old, new, s). length s)") auto

text \<open>The three backquotes of a Markdown code fence.\<close>

definition fence :: string where
  "fence = [CHR 0x60, CHR 0x60, CHR 0x60]"

definition mindmap_prompt :: "string \<Rightarrow> string" where
  "mindmap_prompt document_text =
     ''Convert the following document into a hierarchical mindmap structure...'' @ [CHR 0x0A]
     @ document_text @ [CHR 0x0A, CHR 0x0A] @ ''JSON:''"

text \<open>
  \<^verbatim>\<open>generate_mindmap\<close>; \<^verbatim>\<open>json.loads\<close> is an argument, giving the parsed value or the
  text of its \<^verbatim>\<open>JSONDecodeError\<close>.
\<close>

definition generate_mindmap ::
  "client \<Rightarrow> (string \<Rightarrow> string + json) \<Rightarrow> string \<Rightarrow> int \<Rightarrow> service \<Rightarrow> (exn + json) \<times> service"
where
  "generate_mindmap generate_content json_loads document_text max_tokens s =
     (let s1 = s\<lparr>remote_calls := remote_calls s + 1\<rparr> in
      case generate_content \<lparr>prompt = mindmap_prompt document_text, temperature = 0.2,
             max_output_tokens = max_tokens, candidate_count = None, timeout = 20\<rparr> of
        Inl e \<Rightarrow> (Inl e, s1)
      | Inr text \<Rightarrow>
          (case json_loads (py_replace fence [] (py_replace (fence @ ''json'') [] (strip text))) of
             Inl m \<Rightarrow> (Inl (GeminiAPIError (''Invalid JSON from Gemini: '' @ m)), s1)
           | Inr mindmap_obj \<Rightarrow>
               (case validate_mindmap_structure mindmap_obj 0 of
                  Inl e \<Rightarrow> (Inl e, s1)
                | Inr u \<Rightarrow> (Inr mindmap_obj, s1))))"

definition fake_client :: "string \<Rightarrow> client" where
  "fake_client text = (\<lambda>request. Inr text)"

definition spent_service :: "rat \<Rightarrow> service" where
  "spent_service spent =
     \<lparr>api_logs = [\<lparr>operation = ''summarize'', tokens_input = 0, tokens_output = 0,
                   cost_usd = spent, latency_ms = 0, status = ''success'',
                   document_id = None\<rparr>],
      budget_warnings = [], remote_calls = 0\<rparr>"

subsection \<open>Rate limiter\<close>

record RateLimiter =
  rpm :: int
  request_times :: "rat list"

text \<open>
  \<^verbatim>\<open>RateLimiter.acquire\<close> is a coroutine with one suspension point, the
  \<^verbatim>\<open>await asyncio.sleep(wait_time)\<close>. Between suspension points a coroutine runs without
  interruption, so \<open>acquire\<close> is two steps: \<open>acquire_enter\<close>, from the call to the
  \<^verbatim>\<open>await\<close> (the wait time it asks for, or \<open>None\<close> when it does not sleep), and
  \<open>acquire_resume\<close>, the \<^verbatim>\<open>append(time.time())\<close> that follows. The clock readings
  are arguments.
\<close>

definition acquire_enter :: "rat \<Rightarrow> RateLimiter \<Rightarrow> (exn + rat option) \<times> RateLimiter" where
  "acquire_enter now rl =
     (let kept = filter (\<lambda>t. now - t < 60) (request_times rl);
          rl1 = rl\<lparr>request_times := kept\<rparr>
      in if int (length kept) \<ge> rpm rl then
           (case kept of
              [] \<Rightarrow> (Inl IndexError, rl1)
            | oldest # others \<Rightarrow> (Inr (Some (60 - (now - oldest))), rl1))
         else (Inr None, rl1))"

definition acquire_resume :: "rat \<Rightarrow> RateLimiter \<Rightarrow> RateLimiter" where
  "acquire_resume now rl = rl\<lparr>request_times := request_times rl @ [now]\<rparr>"

text \<open>
  The event loop with several tasks calling \<open>acquire\<close> on one limiter, as the workers of
  \<^verbatim>\<open>RequestQueue.process_queue\<close> do. \<open>Call task now\<close>: the task calls \<open>acquire\<close> when
  the clock reads \<open>now\<close>. \<open>Wake task now\<close>: a sleeping task resumes, which the loop
  allows once its sleep is over. A step that the loop cannot take gives \<open>None\<close>.
\<close>

datatype event = Call nat rat | Wake nat rat

record scheduler =
  limiter :: RateLimiter
  clock :: rat
  sleeping :: "(nat \<times> rat) list"
  granted :: "(nat \<times> rat) list"
  raised :: "(nat \<times> exn) list"

definition step :: "event \<Rightarrow> scheduler \<Rightarrow> scheduler option" where
  "step ev s =
     (case ev of
        Call task now \<Rightarrow>
          if now < clock s \<or> task \<in> set (map fst (sleeping s)) then None
          else (case acquire_enter now (limiter s) of
                  (Inl e, rl) \<Rightarrow>
                    Some (s\<lparr>limiter := rl, clock := now, raised := raised s @ [(task, e)]\<rparr>)
                | (Inr None, rl) \<Rightarrow>
                    Some (s\<lparr>limiter := acquire_resume now rl, clock := now,
                            granted := granted s @ [(task, now)]\<rparr>)
                | (Inr (Some wait_time), rl) \<Rightarrow>
                    Some (s\<lparr>limiter := rl, clock := now,
                            sleeping := sleeping s @ [(task, now + wait_time)]\<rparr>))
      | Wake task now \<Rightarrow>
          (case map_of (sleeping s) task of
             None \<Rightarrow> None
           | Some due \<Rightarrow>
               if now < clock s \<or> now < due then None
               else Some (s\<lparr>limiter := acquire_resume now (limiter s), clock := now,
                             sleeping := filter (\<lambda>p. fst p \<noteq> task) (sleeping s),
                             granted := granted s @ [(task, now)]\<rparr>)))"

fun run :: "event list \<Rightarrow> scheduler \<Rightarrow> scheduler option" where
  "run [] s = Some s"
| "run (ev # evs) s = (case step ev s of None \<Rightarrow> None | Some s1 \<Rightarrow> run evs s1)"

definition start :: "int \<Rightarrow> scheduler" where
  "start requests_per_minute =
     \<lparr>limiter = \<lparr>rpm = requests_per_minute, request_times = []\<rparr>, clock = 0,
      sleeping = [], granted = [], raised = []\<rparr>"

text \<open>
  Runs in which the calls do not overlap: a task calls \<open>acquire\<close> only when no other
  task is asleep inside it.
\<close>

definition serial_step :: "event \<Rightarrow> scheduler \<Rightarrow> scheduler option" where
  "serial_step ev s =
     (case ev of
        Call task now \<Rightarrow> if sleeping s = [] then step ev s else None
      | Wake task now \<Rightarrow> step ev s)"

fun serial_run :: "event list \<Rightarrow> scheduler \<Rightarrow> scheduler option" where
  "serial_run [] s = Some s"
| "serial_run (ev # evs) s =
     (case serial_step ev s of None \<Rightarrow> None | Some s1 \<Rightarrow> serial_run evs s1)"

text \<open>The permits granted in the window \<open>[a, a + w)\<close>.\<close>

definition permits_in_window :: "rat \<Rightarrow> rat \<Rightarrow> (nat \<times> rat) list \<Rightarrow> nat" where
  "permits_in_window a w grants = length (filter (\<lambda>p. a \<le> snd p \<and> snd p < a + w) grants)"

text \<open>
  What holds of the scheduler while calls do not overlap, for a capacity \<open>N\<close>: the kept
  request times are in order and not after the clock, they agree with the granted permits
  on every window that ends at or after the clock, no window \<open>[a, a + 60)\<close> holds more
  than \<open>N\<close> permits, and a sleeping task waits for the oldest kept request to be 60
  seconds old.
\<close>

definition recent :: "rat \<Rightarrow> rat list \<Rightarrow> rat list" where
  "recent now ts = filter (\<lambda>t. now - t < 60) ts"

definition serial_inv :: "nat \<Rightarrow> scheduler \<Rightarrow> bool" where
  "serial_inv N s =
     (rpm (limiter s) = int N
      \<and> sorted (request_times (limiter s))
      \<and> list_all (\<lambda>t. t \<le> clock s) (request_times (limiter s))
      \<and> list_all (\<lambda>p. snd p \<le> clock s) (granted s)
      \<and> (\<forall>now. clock s \<le> now \<longrightarrow>
            recent now (request_times (limiter s)) = recent now (map snd (granted s)))
      \<and> (\<forall>a. permits_in_window a 60 (granted s) \<le> N)
      \<and> (sleeping s = []
          \<or> (\<exists>task oldest others.
                sleeping s = [(task, oldest + 60)]
                \<and> request_times (limiter s) = oldest # others
                \<and> list_all (\<lambda>t. clock s - t < 60) (request_times (limiter s)))))"

text \<open>
  One task at a time, with an exact clock: the call at \<open>now\<close> sleeps for the time it
  asked for and appends the reading at the end of the sleep.
\<close>

definition acquire :: "rat \<Rightarrow> RateLimiter \<Rightarrow> (exn + rat) \<times> RateLimiter" where
  "acquire now rl =
     (case acquire_enter now rl of
        (Inl e, rl1) \<Rightarrow> (Inl e, rl1)
      | (Inr None, rl1) \<Rightarrow> (Inr 0, acquire_resume now rl1)
      | (Inr (Some wait_time), rl1) \<Rightarrow> (Inr wait_time, acquire_resume (now + wait_time) rl1))"

section \<open>Properties of the document store\<close>

text \<open>
  C10. After \<^verbatim>\<open>deleteDocument(id)\<close> no document of the list has that id, the documents
  with another id are the same ones in the same order, the current document becomes
  \<^verbatim>\<open>null\<close> exactly when it had the deleted id and is unchanged otherwise, and the loading
  and error states are untouched.
\<close>

theorem deleteDocument_spec:
  "filter (\<lambda>d. doc_id d = i) (documents (deleteDocument i s)) = []
   \<and> documents (deleteDocument i s) = filter (\<lambda>d. doc_id d \<noteq> i) (documents s)
   \<and> filter (\<lambda>d. doc_id d \<noteq> i) (documents (deleteDocument i s))
       = filter (\<lambda>d. doc_id d \<noteq> i) (documents s)
   \<and> (current_has_id (currentDocument s) i \<longrightarrow> currentDocument (deleteDocument i s) = None)
   \<and> (\<not> current_has_id (currentDocument s) i \<longrightarrow>
         currentDocument (deleteDocument i s) = currentDocument s)
   \<and> loading (deleteDocument i s) = loading s
   \<and> errors (deleteDocument i s) = errors s"
  by (simp add: deleteDocument_def filter_empty_conv)

theorem deleteDocument_spec_witness:
  "current_has_id (currentDocument sample_state) 2
   \<and> currentDocument (deleteDocument 2 sample_state) = None
   \<and> \<not> current_has_id (currentDocument sample_state) 3
   \<and> currentDocument (deleteDocument 3 sample_state) = Some (sample_doc 2)
   \<and> documents (deleteDocument 2 sample_state) = [sample_doc 1, sample_doc 3]"
  using deleteDocument_spec [of 2 sample_state] deleteDocument_spec [of 3 sample_state]
  by (simp add: sample_state_def setCurrentDocument_def addDocument_def initialState_def
      current_has_id_def sample_doc_def)

section \<open>Properties of the frontend error classification and retry loop\<close>



















section \<open>Properties of the mindmap structure validator\<close>

lemma max_list_le_iff: "max_list xs \<le> n \<longleftrightarrow> (\<forall>x \<in> set xs. x \<le> n)"
  by (induction xs) (auto simp: max_list_def)

lemma max_list_replicate: "max_list (replicate n k) = (if n = 0 then 0 else k)"
  by (induction n) (auto simp: max_list_def)

lemma validate_children_map:
  "validate_children (map to_json cs) d = Inr () \<longleftrightarrow>
   (\<forall>c \<in> set cs. validate_mindmap_structure (to_json c) d = Inr ())"
  by (induction cs) (auto split: sum.splits)

lemma validate_children_error:
  "validate_children js d = Inl e \<Longrightarrow> \<exists>j \<in> set js. validate_mindmap_structure j d = Inl e"
  by (induction js) (auto split: sum.splits)

lemma title_lookup:
  "missing_or_not ''title'' is_str (to_json (Node t cs)) = Inr (\<not> title_is_str t)"
  by (cases t) (simp_all add: missing_or_not_def title_is_str_def)

lemma children_lookup:
  "missing_or_not ''children'' is_list (to_json (Node t cs)) = Inr False"
  by (cases t) (simp_all add: missing_or_not_def is_list_def)

lemma children_getitem:
  "py_getitem (to_json (Node t cs)) ''children'' = Inr (JArray (map to_json cs))"
  by (cases t) simp_all

lemma validate_node:
  "validate_mindmap_structure (to_json (Node t cs)) d =
     (if d > 10 then Inl MINDMAP_TOO_DEEP
      else if \<not> title_is_str t then Inl INVALID_title
      else if length cs > 100 then Inl TOO_MANY_CHILDREN
      else validate_children (map to_json cs) (Suc d))"
  by (simp add: validate_mindmap_structure.simps [of "to_json (Node t cs)"]
      title_lookup children_lookup children_getitem del: to_json.simps)

lemma depth_children:
  "(\<forall>c \<in> set cs. Suc d + tree_depth c \<le> 10) \<longleftrightarrow>
   (cs = [] \<or> Suc (d + max_list (map tree_depth cs)) \<le> 10)"
proof (cases "cs = []")
  case True then show ?thesis by simp
next
  case False
  have "Suc (d + max_list (map tree_depth cs)) \<le> 10 \<longleftrightarrow> max_list (map tree_depth cs) \<le> 9 - d \<and> d \<le> 9"
    by arith
  also have "\<dots> \<longleftrightarrow> (\<forall>c \<in> set cs. tree_depth c \<le> 9 - d) \<and> d \<le> 9"
    by (simp add: max_list_le_iff)
  also have "\<dots> \<longleftrightarrow> (\<forall>c \<in> set cs. Suc d + tree_depth c \<le> 10)"
    using False by (cases cs) auto
  finally show ?thesis using False by simp
qed

lemma accepted_iff:
  "validate_mindmap_structure (to_json t) d = Inr () \<longleftrightarrow>
   titles_are_str t \<and> fanout_ok t \<and> d + tree_depth t \<le> 10"
proof (induction t arbitrary: d)
  case (Node t cs)
  have "validate_children (map to_json cs) (Suc d) = Inr () \<longleftrightarrow>
        (\<forall>c \<in> set cs. titles_are_str c \<and> fanout_ok c \<and> Suc d + tree_depth c \<le> 10)"
    using Node.IH by (simp add: validate_children_map)
  also have "\<dots> \<longleftrightarrow> list_all titles_are_str cs \<and> list_all fanout_ok cs
        \<and> (cs = [] \<or> Suc (d + max_list (map tree_depth cs)) \<le> 10)"
    using depth_children [of cs d] by (auto simp: list_all_iff)
  finally have kids: "validate_children (map to_json cs) (Suc d) = Inr () \<longleftrightarrow>
        list_all titles_are_str cs \<and> list_all fanout_ok cs
        \<and> (cs = [] \<or> Suc (d + max_list (map tree_depth cs)) \<le> 10)" .
  show ?case
    by (cases "cs = []") (auto simp: validate_node kids simp del: to_json.simps)
qed

lemma only_depth_error:
  "titles_are_str t \<Longrightarrow> fanout_ok t \<Longrightarrow> validate_mindmap_structure (to_json t) d = Inl e
   \<Longrightarrow> e = MINDMAP_TOO_DEEP"
proof (induction t arbitrary: d)
  case (Node t cs)
  show ?case
  proof (cases "d > 10")
    case True
    with Node.prems show ?thesis by (simp add: validate_node del: to_json.simps)
  next
    case False
    with Node.prems have "validate_children (map to_json cs) (Suc d) = Inl e"
      by (simp add: validate_node del: to_json.simps)
    then obtain c where "c \<in> set cs" "validate_mindmap_structure (to_json c) (Suc d) = Inl e"
      using validate_children_error by fastforce
    with Node.IH Node.prems show ?thesis by (auto simp: list_all_iff)
  qed
qed

lemma bad_title_iff: "has_bad_title t \<longleftrightarrow> \<not> titles_are_str t"
  by (induction t) (auto simp: list_all_iff list_ex_iff)

lemma max_list_append: "max_list (xs @ ys) = max (max_list xs) (max_list ys)"
  by (induction xs) (auto simp: max_list_def)

lemma max_list_simps: "max_list [] = 0" "max_list (x # xs) = max x (max_list xs)"
  by (simp_all add: max_list_def)

lemma rejected_or_accepted:
  "validate_mindmap_structure j d \<noteq> Inr () \<Longrightarrow> \<exists>e. validate_mindmap_structure j d = Inl e"
  by (cases "validate_mindmap_structure j d") auto

lemma tree_depth_chain: "tree_depth (chain k) = k"
  by (induction k) (simp_all add: leaf_def max_list_def)

lemma well_formed_chain: "well_formed (chain k)"
  by (induction k) (simp_all add: leaf_def well_formed_def title_is_str_def)

lemma validate_leaf: "d \<le> 10 \<Longrightarrow> validate_mindmap_structure (to_json (leaf s)) d = Inr ()"
  by (simp add: accepted_iff leaf_def title_is_str_def del: to_json.simps)

lemma tree_501_facts:
  "node_count tree_501 = 501 \<and> tree_depth tree_501 = 2 \<and> well_formed tree_501"
  by (simp add: tree_501_def leaf_def well_formed_def title_is_str_def list_all_iff
      max_list_replicate sum_list_replicate)

lemma wide_deep_depth: "tree_depth wide_deep = 11"
  by (simp add: wide_deep_def tree_depth_chain leaf_def max_list_append max_list_replicate
      max_list_simps)

lemma wide_deep_rejected:
  "validate_mindmap_structure (to_json wide_deep) 0 = Inl TOO_MANY_CHILDREN"
  by (simp add: wide_deep_def validate_node title_is_str_def del: to_json.simps)

lemma deep_well_formed_rejected:
  assumes "10 < d + tree_depth t" "well_formed t"
  shows "validate_mindmap_structure (to_json t) d = Inl MINDMAP_TOO_DEEP"
proof -
  from assms(1) have "validate_mindmap_structure (to_json t) d \<noteq> Inr ()"
    by (simp add: accepted_iff)
  then obtain e where "validate_mindmap_structure (to_json t) d = Inl e"
    using rejected_or_accepted by blast
  with assms(2) only_depth_error show ?thesis
    by (auto simp: well_formed_def)
qed

lemma length_le_node_count: "length cs \<le> sum_list (map node_count cs)"
proof (induction cs)
  case Nil
  then show ?case by simp
next
  case (Cons c cs)
  have "1 \<le> node_count c" by (cases c) simp
  with Cons show ?case by simp
qed

text \<open>A tree of at most 101 nodes has no node with more than 100 children.\<close>

lemma few_nodes_fanout_ok: "node_count t \<le> 101 \<Longrightarrow> fanout_ok t"
proof (induction t)
  case (Node t cs)
  have total: "sum_list (map node_count cs) \<le> 100" using Node.prems by simp
  have "length cs \<le> 100" using length_le_node_count [of cs] total by simp
  moreover have "fanout_ok c" if "c \<in> set cs" for c
  proof -
    have "node_count c \<le> sum_list (map node_count cs)"
      using that by (simp add: member_le_sum_list)
    with total that Node.IH show ?thesis by simp
  qed
  ultimately show ?case by (simp add: list_all_iff)
qed

lemma ten_nodes_facts:
  "well_formed ten_nodes \<and> tree_depth ten_nodes = 3 \<and> node_count ten_nodes = 10"
  by (simp add: ten_nodes_def leaf_def well_formed_def title_is_str_def max_list_def)

text \<open>
  C2, on the code. The validator keeps no count of the nodes it has visited: the tree
  \<open>tree_501\<close>, a root with 100 children of 4 leaves each, has 501 nodes, depth 2 and at
  most 100 children per node, and the validator returns without an error.
\<close>

theorem validate_accepts_501_nodes:
  "node_count tree_501 = 501 \<and> tree_depth tree_501 = 2 \<and> well_formed tree_501
   \<and> validate_mindmap_structure (to_json tree_501) 0 = Inr ()"
  using tree_501_facts by (simp add: accepted_iff well_formed_def del: to_json.simps)

text \<open>
  C3, as stated, fails. The tree \<open>wide_deep\<close> has depth 11 and a root with 101 children:
  the validator raises \<open>TOO_MANY_CHILDREN\<close> at the root and never reaches the deep branch.
  The chain of 12 nodes has depth 11 and nothing else wrong with it: the error it is rejected
  with carries the code \<open>MINDMAP_TOO_DEEP\<close>, not \<open>MAX_DEPTH_EXCEEDED\<close>.
\<close>

theorem validate_depth_counterexample:
  "tree_depth wide_deep = 11
   \<and> validate_mindmap_structure (to_json wide_deep) 0
       = Inl (ValidationError ''TOO_MANY_CHILDREN'' ''Max 100 children per node'')
   \<and> tree_depth (chain 11) = 11
   \<and> validate_mindmap_structure (to_json (chain 11)) 0
       = Inl (ValidationError ''MINDMAP_TOO_DEEP'' ''Max 10 hierarchy levels'')"
  using wide_deep_depth wide_deep_rejected
    deep_well_formed_rejected [of 0 "chain 11"] well_formed_chain [of 11]
  by (simp add: tree_depth_chain TOO_MANY_CHILDREN_def MINDMAP_TOO_DEEP_def)

text \<open>
  C3, amended. Called with depth 0, the validator rejects every tree of depth 11 or more
  (the root at depth 0) with an error, and the error is the depth error
  \<open>MINDMAP_TOO_DEEP\<close> when every node has a string title and at most 100 children. It
  accepts every tree of depth 3 with 10 nodes whose nodes all have string titles.
\<close>

theorem validate_depth_limit:
  "(10 < tree_depth t \<longrightarrow> (\<exists>e. validate_mindmap_structure (to_json t) 0 = Inl e))
   \<and> (10 < tree_depth t \<and> well_formed t \<longrightarrow>
        validate_mindmap_structure (to_json t) 0 = Inl MINDMAP_TOO_DEEP)
   \<and> (titles_are_str t \<and> tree_depth t = 3 \<and> node_count t = 10 \<longrightarrow>
        validate_mindmap_structure (to_json t) 0 = Inr ())"
proof (intro conjI impI)
  assume "10 < tree_depth t"
  then have "validate_mindmap_structure (to_json t) 0 \<noteq> Inr ()"
    by (simp add: accepted_iff)
  then show "\<exists>e. validate_mindmap_structure (to_json t) 0 = Inl e"
    by (rule rejected_or_accepted)
next
  assume "10 < tree_depth t \<and> well_formed t"
  then show "validate_mindmap_structure (to_json t) 0 = Inl MINDMAP_TOO_DEEP"
    using deep_well_formed_rejected [of 0 t] by simp
next
  assume "titles_are_str t \<and> tree_depth t = 3 \<and> node_count t = 10"
  then show "validate_mindmap_structure (to_json t) 0 = Inr ()"
    using few_nodes_fanout_ok [of t] by (simp add: accepted_iff)
qed

theorem validate_depth_limit_witness:
  "10 < tree_depth (chain 11) \<and> well_formed (chain 11)
   \<and> validate_mindmap_structure (to_json (chain 11)) 0 = Inl MINDMAP_TOO_DEEP
   \<and> titles_are_str ten_nodes \<and> tree_depth ten_nodes = 3 \<and> node_count ten_nodes = 10
   \<and> validate_mindmap_structure (to_json ten_nodes) 0 = Inr ()"
  using validate_depth_limit [of "chain 11"] validate_depth_limit [of ten_nodes]
    well_formed_chain [of 11] ten_nodes_facts
  by (simp add: tree_depth_chain well_formed_def)

text \<open>
  C4, as stated, fails: a node whose title is the empty string is a node with a string
  title, and the validator accepts it.
\<close>

theorem validate_empty_title_counterexample:
  "has_empty_title (leaf []) \<and> validate_mindmap_structure (to_json (leaf [])) 0 = Inr ()"
  by (simp add: validate_leaf) (simp add: leaf_def)

text \<open>
  C4, amended. The validator accepts a node only if its title is a string, the empty
  string included: for every tree containing at least one node whose title is missing or
  is not a string it returns an error, whatever the depth it is called with, and a tree it
  accepts has string titles only; a tree whose titles are all strings is accepted when it
  also meets the limits on children and depth.
\<close>

theorem validate_title_is_string:
  "(has_bad_title t \<longrightarrow> (\<exists>e. validate_mindmap_structure (to_json t) d = Inl e))
   \<and> (validate_mindmap_structure (to_json t) d = Inr () \<longrightarrow> titles_are_str t)
   \<and> (titles_are_str t \<and> fanout_ok t \<and> d + tree_depth t \<le> 10 \<longrightarrow>
        validate_mindmap_structure (to_json t) d = Inr ())"
  using rejected_or_accepted [of "to_json t" d]
  by (auto simp: accepted_iff bad_title_iff simp del: to_json.simps)

theorem validate_title_is_string_witness:
  "has_bad_title bad_titles
   \<and> (\<exists>e. validate_mindmap_structure (to_json bad_titles) 0 = Inl e)
   \<and> titles_are_str (leaf []) \<and> fanout_ok (leaf []) \<and> 0 + tree_depth (leaf []) \<le> 10
   \<and> validate_mindmap_structure (to_json (leaf [])) 0 = Inr ()"
  using validate_title_is_string [of bad_titles 0] validate_title_is_string [of "leaf []" 0]
  by (simp add: bad_titles_def title_is_str_def leaf_def del: to_json.simps)

section \<open>Properties of the retry loops\<close>















section \<open>Properties of cost tracking and the budget\<close>



text \<open>
  C1, as stated, fails. With a daily spend of 100 against a limit of 50,
  \<^verbatim>\<open>generate_summary\<close> and \<^verbatim>\<open>generate_mindmap\<close> still call the remote client, once each,
  and return its answer.
\<close>

theorem budget_gate_counterexample:
  "50 \<le> calculate_daily_cost (spent_service 100)
   \<and> generate_summary (fake_client ''ok'') ''T'' 1000 (spent_service 100)
       = (Inr ''ok'', (spent_service 100)\<lparr>remote_calls := 1\<rparr>)
   \<and> generate_mindmap (fake_client ''{}'') (\<lambda>t. Inr (to_json (leaf ''T''))) ''T'' 2000
         (spent_service 100)
       = (Inr (to_json (leaf ''T'')), (spent_service 100)\<lparr>remote_calls := 1\<rparr>)"
  by (simp add: calculate_daily_cost_def spent_service_def generate_summary_def
      generate_mindmap_def fake_client_def strip_def py_isspace_def validate_leaf
      del: to_json.simps)

text \<open>
  C1, amended. The budget is not checked before a remote call. \<^verbatim>\<open>generate_summary\<close> and
  \<^verbatim>\<open>generate_mindmap\<close> issue exactly one remote call whatever has been spent, and their
  result does not depend on the logged costs. The only budget check is in
  \<^verbatim>\<open>_log_api_call\<close>, after the call has been logged: it appends the log entry, issues no
  remote call, never fails, and writes a warning exactly when the daily cost, the new
  entry included, is strictly above the limit.
\<close>

theorem budget_checked_after_logging:
  "remote_calls (snd (generate_summary c doc n s)) = remote_calls s + 1
   \<and> fst (generate_summary c doc n (s\<lparr>api_logs := logs\<rparr>)) = fst (generate_summary c doc n s)
   \<and> remote_calls (snd (generate_mindmap c loads doc n s)) = remote_calls s + 1
   \<and> fst (generate_mindmap c loads doc n (s\<lparr>api_logs := logs\<rparr>))
       = fst (generate_mindmap c loads doc n s)
   \<and> remote_calls (log_api_call L op ti tout lat st did s) = remote_calls s
   \<and> length (api_logs (log_api_call L op ti tout lat st did s)) = Suc (length (api_logs s))
   \<and> budget_warnings (log_api_call L op ti tout lat st did s)
       = (if L < calculate_daily_cost (log_api_call L op ti tout lat st did s)
          then budget_warnings s @ [calculate_daily_cost (log_api_call L op ti tout lat st did s)]
          else budget_warnings s)"
proof -
  have one_summary: "remote_calls (snd (generate_summary c doc n s)) = remote_calls s + 1
      \<and> fst (generate_summary c doc n (s\<lparr>api_logs := logs\<rparr>)) = fst (generate_summary c doc n s)"
    by (simp add: generate_summary_def Let_def split: sum.splits)
  have one_mindmap: "remote_calls (snd (generate_mindmap c loads doc n s)) = remote_calls s + 1
      \<and> fst (generate_mindmap c loads doc n (s\<lparr>api_logs := logs\<rparr>))
          = fst (generate_mindmap c loads doc n s)"
    by (simp add: generate_mindmap_def Let_def split: sum.splits)
  have logging: "remote_calls (log_api_call L op ti tout lat st did s) = remote_calls s
      \<and> length (api_logs (log_api_call L op ti tout lat st did s)) = Suc (length (api_logs s))"
    by (simp add: log_api_call_def Let_def)
  have warn: "budget_warnings (log_api_call L op ti tout lat st did s)
       = (if L < calculate_daily_cost (log_api_call L op ti tout lat st did s)
          then budget_warnings s @ [calculate_daily_cost (log_api_call L op ti tout lat st did s)]
          else budget_warnings s)"
    by (simp add: log_api_call_def Let_def calculate_daily_cost_def)
  show ?thesis
    using one_summary one_mindmap logging warn by simp
qed


section \<open>Properties of the rate limiter\<close>

text \<open>
  A call that finds the window full asks to sleep until the oldest kept request is 60
  seconds old, and a lone caller is granted its permit at that moment.
\<close>

lemma acquire_waits_for_oldest:
  "filter (\<lambda>t. now - t < 60) (request_times rl) = oldest # others \<Longrightarrow>
   rpm rl \<le> int (Suc (length others)) \<Longrightarrow>
   acquire now rl
     = (Inr (60 - (now - oldest)),
        rl\<lparr>request_times := (oldest # others) @ [oldest + 60]\<rparr>)"
  by (simp add: acquire_def acquire_enter_def acquire_resume_def Let_def)

lemma acquire_below_capacity:
  "int (length (filter (\<lambda>t. now - t < 60) (request_times rl))) < rpm rl \<Longrightarrow>
   acquire now rl
     = (Inr 0, rl\<lparr>request_times := filter (\<lambda>t. now - t < 60) (request_times rl) @ [now]\<rparr>)"
  by (simp add: acquire_def acquire_enter_def acquire_resume_def Let_def)

text \<open>
  While the calls do not overlap the limiter keeps its bound: the invariant \<open>serial_inv\<close>
  holds at the start and after every step, so no window \<open>[a, a + 60)\<close> ever holds more
  permits than the capacity.
\<close>

lemma filter_length_mono:
  "(\<And>x. x \<in> set xs \<Longrightarrow> P x \<Longrightarrow> Q x) \<Longrightarrow> length (filter P xs) \<le> length (filter Q xs)"
  by (induction xs) auto

lemma recent_recent: "now \<le> later \<Longrightarrow> recent later (recent now ts) = recent later ts"
  unfolding recent_def by (induction ts) auto

lemma recent_append: "recent now (xs @ ys) = recent now xs @ recent now ys"
  by (simp add: recent_def)

lemma recent_all: "list_all (\<lambda>t. now - t < 60) ts \<Longrightarrow> recent now ts = ts"
  unfolding recent_def by (induction ts) auto

lemma sorted_recent: "sorted ts \<Longrightarrow> sorted (recent now ts)"
  unfolding recent_def by (rule sorted_wrt_filter)

lemma permits_snoc:
  "permits_in_window a w (G @ [(task, g)])
     = permits_in_window a w G + (if a \<le> g \<and> g < a + w then 1 else 0)"
  by (simp add: permits_in_window_def)

lemma permits_le_recent:
  assumes "a \<le> g" "g < a + 60"
  shows "permits_in_window a 60 G \<le> length (recent g (map snd G))"
proof -
  have "length (filter (\<lambda>p. a \<le> snd p \<and> snd p < a + 60) G)
        \<le> length (filter (\<lambda>p. g - snd p < 60) G)"
    using assms by (intro filter_length_mono) auto
  then show ?thesis
    by (simp add: permits_in_window_def recent_def filter_map comp_def)
qed

text \<open>
  A new permit keeps the bound when fewer than \<open>N\<close> of the earlier permits are less
  than 60 seconds older than it.
\<close>

lemma window_bound_snoc:
  assumes bound: "\<forall>a. permits_in_window a 60 G \<le> N"
    and few: "Suc (length (recent g (map snd G))) \<le> N"
  shows "permits_in_window a 60 (G @ [(task, g)]) \<le> N"
proof (cases "a \<le> g \<and> g < a + 60")
  case True
  then have "permits_in_window a 60 G \<le> length (recent g (map snd G))"
    using permits_le_recent by blast
  then show ?thesis using True few by (simp add: permits_snoc)
next
  case False
  then have "permits_in_window a 60 (G @ [(task, g)]) = permits_in_window a 60 G"
    by (auto simp: permits_snoc)
  then show ?thesis using bound by simp
qed

lemma acquire_enter_cases:
  "rpm rl = int N \<Longrightarrow>
   acquire_enter now rl =
     (if N \<le> length (recent now (request_times rl))
      then (case recent now (request_times rl) of
              [] \<Rightarrow> (Inl IndexError, rl\<lparr>request_times := []\<rparr>)
            | oldest # others \<Rightarrow>
                (Inr (Some (60 - (now - oldest))), rl\<lparr>request_times := oldest # others\<rparr>))
      else (Inr None, rl\<lparr>request_times := recent now (request_times rl)\<rparr>))"
  by (auto simp: acquire_enter_def recent_def Let_def split: list.splits)

lemma recent_subset: "x \<in> set (recent now ts) \<Longrightarrow> x \<in> set ts \<and> now - x < 60"
  by (simp add: recent_def)

lemma list_all_recent: "list_all (\<lambda>t. now - t < 60) (recent now ts)"
  by (simp add: recent_def list_all_iff)

text \<open>Case: the call finds room.\<close>

lemma serial_inv_call_room:
  assumes inv: "serial_inv N s" and idle: "sleeping s = []" and later: "clock s \<le> now"
    and room: "length (recent now (request_times (limiter s))) < N"
  shows "serial_inv N
           (s\<lparr>limiter := acquire_resume now
                            ((limiter s)\<lparr>request_times := recent now (request_times (limiter s))\<rparr>),
              clock := now, granted := granted s @ [(task, now)]\<rparr>)"
proof -
  let ?rt = "request_times (limiter s)"
  let ?K = "recent now ?rt"
  let ?G = "granted s"
  from inv have rpm: "rpm (limiter s) = int N" and srt: "sorted ?rt"
    and old: "list_all (\<lambda>t. t \<le> clock s) ?rt"
    and gold: "list_all (\<lambda>p. snd p \<le> clock s) ?G"
    and agree: "\<And>t. clock s \<le> t \<Longrightarrow> recent t ?rt = recent t (map snd ?G)"
    and bound: "\<forall>a. permits_in_window a 60 ?G \<le> N"
    by (simp_all add: serial_inv_def)
  have K_le: "\<forall>x \<in> set ?K. x \<le> now"
    using old later recent_subset [of _ now ?rt] by (fastforce simp: list_all_iff)
  have s1: "sorted (?K @ [now])"
    using srt K_le by (simp add: sorted_append sorted_recent)
  have s2: "list_all (\<lambda>t. t \<le> now) (?K @ [now])"
    using K_le by (simp add: list_all_iff)
  have s3: "list_all (\<lambda>p. snd p \<le> now) (?G @ [(task, now)])"
    using gold later by (auto simp: list_all_iff)
  have s4: "\<forall>t. now \<le> t \<longrightarrow> recent t (?K @ [now]) = recent t (map snd (?G @ [(task, now)]))"
  proof (intro allI impI)
    fix t assume t: "now \<le> t"
    then have "recent t ?K = recent t (map snd ?G)"
      using agree [of t] later by (simp add: recent_recent)
    then show "recent t (?K @ [now]) = recent t (map snd (?G @ [(task, now)]))"
      by (simp add: recent_append)
  qed
  have "recent now (map snd ?G) = ?K" using agree [of now] later by simp
  then have few: "Suc (length (recent now (map snd ?G))) \<le> N" using room by simp
  have s5: "\<forall>a. permits_in_window a 60 (?G @ [(task, now)]) \<le> N"
    using window_bound_snoc [OF bound few] by blast
  show ?thesis
    using rpm s1 s2 s3 s4 s5 idle
    by (simp add: serial_inv_def acquire_resume_def)
qed

text \<open>Case: the call finds the window full and goes to sleep.\<close>

lemma serial_inv_call_full:
  assumes inv: "serial_inv N s" and idle: "sleeping s = []" and later: "clock s \<le> now"
    and full: "recent now (request_times (limiter s)) = oldest # others"
  shows "serial_inv N
           (s\<lparr>limiter := (limiter s)\<lparr>request_times := oldest # others\<rparr>,
              clock := now, sleeping := [(task, now + (60 - (now - oldest)))]\<rparr>)"
proof -
  let ?rt = "request_times (limiter s)"
  let ?G = "granted s"
  from inv have rpm: "rpm (limiter s) = int N" and srt: "sorted ?rt"
    and old: "list_all (\<lambda>t. t \<le> clock s) ?rt"
    and gold: "list_all (\<lambda>p. snd p \<le> clock s) ?G"
    and agree: "\<And>t. clock s \<le> t \<Longrightarrow> recent t ?rt = recent t (map snd ?G)"
    and bound: "\<forall>a. permits_in_window a 60 ?G \<le> N"
    by (simp_all add: serial_inv_def)
  have K_le: "\<forall>x \<in> set (oldest # others). x \<le> now"
    using old later recent_subset [of _ now ?rt] full by (fastforce simp: list_all_iff)
  have s1: "sorted (oldest # others)"
    using srt sorted_recent [of ?rt now] full by simp
  have s2: "list_all (\<lambda>t. t \<le> now) (oldest # others)"
    using K_le by (simp add: list_all_iff)
  have s3: "list_all (\<lambda>p. snd p \<le> now) ?G"
    using gold later by (auto simp: list_all_iff)
  have s4: "\<forall>t. now \<le> t \<longrightarrow> recent t (oldest # others) = recent t (map snd ?G)"
  proof (intro allI impI)
    fix t assume t: "now \<le> t"
    have "recent t (recent now ?rt) = recent t ?rt" using t by (rule recent_recent)
    then show "recent t (oldest # others) = recent t (map snd ?G)"
      using agree [of t] later t full by simp
  qed
  have s6: "list_all (\<lambda>t. now - t < 60) (oldest # others)"
    using list_all_recent [of now ?rt] full by simp
  have due: "now + (60 - (now - oldest)) = oldest + 60" by simp
  show ?thesis
    unfolding due
    using rpm s1 s2 s3 s4 bound s6
    by (simp add: serial_inv_def)
qed

text \<open>Case: the sleeping task resumes.\<close>

lemma serial_inv_wake:
  assumes inv: "serial_inv N s" and asleep: "sleeping s = [(task, oldest + 60)]"
    and kept: "request_times (limiter s) = oldest # others"
    and fresh: "list_all (\<lambda>t. clock s - t < 60) (request_times (limiter s))"
    and later: "clock s \<le> now" and due: "oldest + 60 \<le> now"
  shows "serial_inv N
           (s\<lparr>limiter := acquire_resume now (limiter s), clock := now, sleeping := [],
              granted := granted s @ [(task, now)]\<rparr>)"
proof -
  let ?rt = "request_times (limiter s)"
  let ?G = "granted s"
  from inv have rpm: "rpm (limiter s) = int N" and srt: "sorted ?rt"
    and old: "list_all (\<lambda>t. t \<le> clock s) ?rt"
    and gold: "list_all (\<lambda>p. snd p \<le> clock s) ?G"
    and agree: "\<And>t. clock s \<le> t \<Longrightarrow> recent t ?rt = recent t (map snd ?G)"
    and bound: "\<forall>a. permits_in_window a 60 ?G \<le> N"
    by (simp_all add: serial_inv_def)
  have s1: "sorted (?rt @ [now])"
    using srt old later by (auto simp: sorted_append list_all_iff)
  have s2: "list_all (\<lambda>t. t \<le> now) (?rt @ [now])"
    using old later by (auto simp: list_all_iff)
  have s3: "list_all (\<lambda>p. snd p \<le> now) (?G @ [(task, now)])"
    using gold later by (auto simp: list_all_iff)
  have s4: "\<forall>t. now \<le> t \<longrightarrow> recent t (?rt @ [now]) = recent t (map snd (?G @ [(task, now)]))"
  proof (intro allI impI)
    fix t assume t: "now \<le> t"
    then show "recent t (?rt @ [now]) = recent t (map snd (?G @ [(task, now)]))"
      using agree [of t] later by (simp add: recent_append)
  qed
  text \<open>the kept requests all lie in the window that starts at the oldest of them\<close>
  have "?rt = recent (clock s) (map snd ?G)"
    using agree [of "clock s"] recent_all [OF fresh] by simp
  then have "length ?rt = length (filter (\<lambda>p. clock s - snd p < 60) ?G)"
    by (simp add: recent_def filter_map comp_def)
  also have "\<dots> \<le> length (filter (\<lambda>p. oldest \<le> snd p \<and> snd p < oldest + 60) ?G)"
  proof (rule filter_length_mono)
    fix p assume p: "p \<in> set ?G" "clock s - snd p < 60"
    then have "snd p \<in> set (recent (clock s) (map snd ?G))"
      by (auto simp: recent_def)
    then have "snd p \<in> set ?rt"
      using agree [of "clock s"] recent_subset [of "snd p" "clock s" ?rt] by simp
    then have lo: "oldest \<le> snd p" using srt kept by auto
    have "snd p \<le> clock s" using gold p(1) by (auto simp: list_all_iff)
    moreover have "clock s - oldest < 60" using fresh kept by simp
    ultimately show "oldest \<le> snd p \<and> snd p < oldest + 60" using lo by simp
  qed
  also have "\<dots> \<le> N" using bound by (simp add: permits_in_window_def)
  finally have cap: "Suc (length others) \<le> N" using kept by simp
  have "recent now (map snd ?G) = recent now ?rt" using agree [of now] later by simp
  also have "\<dots> = recent now others" using kept due by (simp add: recent_def)
  finally have "length (recent now (map snd ?G)) \<le> length others"
    by (simp add: recent_def)
  then have few: "Suc (length (recent now (map snd ?G))) \<le> N" using cap by simp
  have s5: "\<forall>a. permits_in_window a 60 (?G @ [(task, now)]) \<le> N"
    using window_bound_snoc [OF bound few] by blast
  show ?thesis
    using rpm s1 s2 s3 s4 s5
    by (simp add: serial_inv_def acquire_resume_def)
qed

lemma serial_inv_start: "serial_inv N (start (int N))"
  by (simp add: serial_inv_def start_def recent_def permits_in_window_def)

lemma serial_inv_step:
  assumes inv: "serial_inv N s" and N: "0 < N" and step: "serial_step ev s = Some s1"
  shows "serial_inv N s1"
proof (cases ev)
  case (Call task now)
  with step have idle: "sleeping s = []" and st: "step (Call task now) s = Some s1"
    by (auto simp: serial_step_def split: if_splits)
  from st idle have later: "clock s \<le> now"
    by (auto simp: step_def split: if_splits)
  from inv have rpm: "rpm (limiter s) = int N" by (simp add: serial_inv_def)
  let ?K = "recent now (request_times (limiter s))"
  show ?thesis
  proof (cases "N \<le> length ?K")
    case True
    with N obtain oldest others where K: "?K = oldest # others"
      by (cases ?K) auto
    have "s1 = s\<lparr>limiter := (limiter s)\<lparr>request_times := oldest # others\<rparr>,
                  clock := now, sleeping := [(task, now + (60 - (now - oldest)))]\<rparr>"
      using st idle later True K
      by (simp add: step_def acquire_enter_cases [OF rpm])
    then show ?thesis
      using serial_inv_call_full [OF inv idle later K] by simp
  next
    case False
    then have room: "length ?K < N" by simp
    have "s1 = s\<lparr>limiter := acquire_resume now ((limiter s)\<lparr>request_times := ?K\<rparr>),
                  clock := now, granted := granted s @ [(task, now)]\<rparr>"
      using st idle later False
      by (simp add: step_def acquire_enter_cases [OF rpm])
    then show ?thesis
      using serial_inv_call_room [OF inv idle later room] by simp
  qed
next
  case (Wake task now)
  with step have st: "step (Wake task now) s = Some s1"
    by (simp add: serial_step_def)
  then have "sleeping s \<noteq> []"
    by (auto simp: step_def)
  with inv obtain task1 oldest others where
    asleep: "sleeping s = [(task1, oldest + 60)]"
    and kept: "request_times (limiter s) = oldest # others"
    and fresh: "list_all (\<lambda>t. clock s - t < 60) (request_times (limiter s))"
    by (auto simp: serial_inv_def)
  from st asleep have same: "task1 = task"
    by (auto simp: step_def split: if_splits)
  from st asleep same have later: "clock s \<le> now" and due: "oldest + 60 \<le> now"
    by (auto simp: step_def split: if_splits)
  have "s1 = s\<lparr>limiter := acquire_resume now (limiter s), clock := now, sleeping := [],
                granted := granted s @ [(task, now)]\<rparr>"
    using st asleep same later due by (auto simp: step_def split: if_splits)
  then show ?thesis
    using serial_inv_wake [OF inv asleep [unfolded same] kept fresh later due] by simp
qed

lemma serial_inv_run:
  "serial_inv N s \<Longrightarrow> 0 < N \<Longrightarrow> serial_run evs s = Some s1 \<Longrightarrow> serial_inv N s1"
proof (induction evs arbitrary: s)
  case Nil
  then show ?case by simp
next
  case (Cons ev evs)
  then obtain s2 where s2: "serial_step ev s = Some s2" "serial_run evs s2 = Some s1"
    by (auto split: option.splits)
  with Cons.prems have "serial_inv N s2" using serial_inv_step by blast
  with Cons.IH s2 Cons.prems show ?case by blast
qed

lemma serial_window_bound:
  "0 < N \<Longrightarrow> serial_run evs (start (int N)) = Some s \<Longrightarrow> permits_in_window a 60 (granted s) \<le> N"
  using serial_inv_run [OF serial_inv_start, of N evs s] by (simp add: serial_inv_def)

lemma serial_example:
  "serial_run [Call 0 0, Call 1 10, Wake 1 60, Call 2 61, Wake 2 120] (start 1)
   = Some \<lparr>limiter = \<lparr>rpm = 1, request_times = [60, 120]\<rparr>, clock = 120, sleeping = [],
             granted = [(0, 0), (1, 60), (2, 120)], raised = []\<rparr>"
  by (simp add: serial_step_def start_def step_def acquire_enter_def acquire_resume_def Let_def)

lemma overlapping_not_serial:
  "serial_run [Call 0 0, Call 1 10, Call 2 20, Wake 1 60, Wake 2 60] (start 1) = None"
  by (simp add: serial_step_def start_def step_def acquire_enter_def acquire_resume_def Let_def)

text \<open>
  C9, on the code. With a capacity of one request per window, a permit is granted at
  time 0. Two tasks then call \<open>acquire\<close>, at times 10 and 20; each finds the window full
  and sleeps until time 60, 60 seconds after the oldest request, as the claim describes.
  Both resume at time 60 and both append, without looking at the window again: two
  permits are granted at time 60, so the window from 1 to 61 holds two permits against a
  capacity of one.
\<close>

theorem rate_limiter_overlapping_calls:
  "run [Call 0 0, Call 1 10, Call 2 20] (start 1)
     = Some \<lparr>limiter = \<lparr>rpm = 1, request_times = [0]\<rparr>, clock = 20,
             sleeping = [(1, 60), (2, 60)], granted = [(0, 0)], raised = []\<rparr>
   \<and> run [Call 0 0, Call 1 10, Call 2 20, Wake 1 60, Wake 2 60] (start 1)
     = Some \<lparr>limiter = \<lparr>rpm = 1, request_times = [0, 60, 60]\<rparr>, clock = 60, sleeping = [],
             granted = [(0, 0), (1, 60), (2, 60)], raised = []\<rparr>
   \<and> permits_in_window 1 60 [(0, 0), (1, 60), (2, 60)] = 2"
  by (simp add: start_def step_def acquire_enter_def acquire_resume_def Let_def
      permits_in_window_def)

end
